theory Spec2Isabelle
  imports Main "HOL-Library.Word" "HOL-Library.Multiset"
begin

section \<open>Strings and numbers of the host language\<close>

text \<open>
  A TypeScript string is a sequence of UTF-16 code units.  Literals of the source are
  written with \<open>js\<close>, which maps each ASCII character to its code unit.
\<close>

type_synonym char16 = "16 word"
type_synonym jsstring = "char16 list"

definition ch :: "char \<Rightarrow> char16" where
  "ch c = of_char c"

definition js :: "string \<Rightarrow> jsstring" where
  "js s = map ch s"

definition in_range :: "char \<Rightarrow> char \<Rightarrow> char16 \<Rightarrow> bool" where
  "in_range lo hi c = (ch lo \<le> c \<and> c \<le> ch hi)"

definition one_of :: "string \<Rightarrow> char16 \<Rightarrow> bool" where
  "one_of s c = (c \<in> set (js s))"

text \<open>The class \<open>\d\<close> of a regular expression without the unicode flag: \<open>[0-9]\<close>.\<close>

definition is_digit :: "char16 \<Rightarrow> bool" where
  "is_digit c = in_range CHR ''0'' CHR ''9'' c"

text \<open>The word characters that \<open>\b\<close> looks at: \<open>[A-Za-z0-9_]\<close>.\<close>

definition is_word_char :: "char16 \<Rightarrow> bool" where
  "is_word_char c =
    (in_range CHR ''a'' CHR ''z'' c \<or> in_range CHR ''A'' CHR ''Z'' c \<or> is_digit c \<or> c = ch CHR ''_'')"

text \<open>
  White space and line terminators of the language, the code units that
  \<open>String.prototype.trim\<close> and \<open>parseInt\<close> strip.
\<close>

definition whitespace_units :: "char16 list" where
  "whitespace_units =
    [0x0009, 0x000A, 0x000B, 0x000C, 0x000D, 0x0020, 0x00A0, 0x1680,
     0x2000, 0x2001, 0x2002, 0x2003, 0x2004, 0x2005, 0x2006, 0x2007,
     0x2008, 0x2009, 0x200A, 0x2028, 0x2029, 0x202F, 0x205F, 0x3000, 0xFEFF]"

definition is_whitespace :: "char16 \<Rightarrow> bool" where
  "is_whitespace c = (c \<in> set whitespace_units)"

definition trimStart :: "jsstring \<Rightarrow> jsstring" where
  "trimStart s = dropWhile is_whitespace s"

definition trim :: "jsstring \<Rightarrow> jsstring" where
  "trim s = rev (dropWhile is_whitespace (rev (dropWhile is_whitespace s)))"

text \<open>
  The values of type \<open>number\<close> that the program computes with are integers held in
  double precision, \<open>NaN\<close> and the infinities.  The sign of zero is not represented.
\<close>

datatype number = Finite int | NaN | PosInfinity | NegInfinity

fun bit_length :: "nat \<Rightarrow> nat" where
  "bit_length n = (if n = 0 then 0 else Suc (bit_length (n div 2)))"

declare bit_length.simps [simp del]

text \<open>
  The double nearest to a natural number: exact when it has at most 53 bits, otherwise
  the 53 leading bits rounded to nearest, ties to even.
\<close>

definition round53 :: "nat \<Rightarrow> nat" where
  "round53 a =
    (let e = bit_length a - 53
     in if e = 0 then a
        else let q = a div 2 ^ e;
                 r = a mod 2 ^ e;
                 half = 2 ^ (e - 1);
                 q' = (if half < r \<or> (r = half \<and> odd q) then q + 1 else q)
             in q' * 2 ^ e)"

text \<open>
  The value of type \<open>number\<close> for an integer; a magnitude that rounds to \<open>2 ^ 1024\<close> or
  more is an infinity.
\<close>

definition toNumber :: "int \<Rightarrow> number" where
  "toNumber x =
    (let r = round53 (nat \<bar>x\<bar>)
     in if 1024 < bit_length r then (if x < 0 then NegInfinity else PosInfinity)
        else Finite (sgn x * int r))"

text \<open>Decimal rendering of an integer, as a template literal interpolates it.\<close>

fun decimal :: "nat \<Rightarrow> jsstring" where
  "decimal n = (if n < 10 then [ch CHR ''0'' + of_nat n]
                else decimal (n div 10) @ [ch CHR ''0'' + of_nat (n mod 10)])"

declare decimal.simps [simp del]

definition numberToString :: "int \<Rightarrow> jsstring" where
  "numberToString x = (if x < 0 then js ''-'' @ decimal (nat (- x)) else decimal (nat x))"

section \<open>Regular expressions\<close>

text \<open>
  The fragment of the regular expression language that the program's four patterns are
  written in.  \<open>Rep p lo hi\<close> is a character class \<open>p\<close> repeated between \<open>lo\<close> and
  \<open>hi\<close> times (\<open>None\<close>: no upper bound).
\<close>

datatype regex =
    Bol
  | Eol
  | WordB
  | Lit jsstring
  | Rep "char16 \<Rightarrow> bool" nat "nat option"
  | Opt regex
  | Cat regex regex

definition word_char_at :: "jsstring \<Rightarrow> int \<Rightarrow> bool" where
  "word_char_at s e = (if e < 0 \<or> int (length s) \<le> e then False else is_word_char (s ! nat e))"

text \<open>
  \<open>ends r s i\<close> lists the positions of \<open>s\<close> at which a match of \<open>r\<close> that starts at
  position \<open>i\<close> may end, in the order in which a backtracking matcher tries them.
\<close>

fun ends :: "regex \<Rightarrow> jsstring \<Rightarrow> nat \<Rightarrow> nat list" where
  "ends Bol s i = (if i = 0 then [i] else [])"
| "ends Eol s i = (if i = length s then [i] else [])"
| "ends WordB s i = (if word_char_at s (int i - 1) \<noteq> word_char_at s (int i) then [i] else [])"
| "ends (Lit l) s i = (if take (length l) (drop i s) = l then [i + length l] else [])"
| "ends (Rep p lo hi) s i =
     (let n = length (takeWhile p (drop i s));
          m = (case hi of None \<Rightarrow> n | Some h \<Rightarrow> min n h)
      in map (\<lambda>k. i + k) (rev [lo ..< Suc m]))"
| "ends (Opt r) s i = ends r s i @ [i]"
| "ends (Cat a b) s i = concat (map (ends b s) (ends a s i))"

definition seq :: "regex list \<Rightarrow> regex" where
  "seq rs = foldr Cat rs (Lit [])"

text \<open>Whether a pattern mentions the start anchor \<open>^\<close>.\<close>

fun uses_bol :: "regex \<Rightarrow> bool" where
  "uses_bol Bol = True"
| "uses_bol (Opt r) = uses_bol r"
| "uses_bol (Cat a b) = (uses_bol a \<or> uses_bol b)"
| "uses_bol r = False"

text \<open>
  \<open>String.prototype.match\<close> and \<open>RegExp.prototype.test\<close> look for a match starting at
  any position; the program only uses whether there is one.
\<close>

definition regex_test :: "regex \<Rightarrow> jsstring \<Rightarrow> bool" where
  "regex_test r s = list_ex (\<lambda>i. ends r s i \<noteq> []) [0 ..< Suc (length s)]"

section \<open>Validation utilities\<close>

text \<open>
  What a resolver or the client can fail with: the error of the resolvers with its
  message, the client's known request error with its code, and any other value thrown.
\<close>

datatype error =
    GraphQLError jsstring
  | PrismaClientKnownRequestError jsstring
  | OtherError jsstring

text \<open>
  \<open>parseInt(string, radix)\<close>; \<open>None\<close> is a call without a radix.  Leading white space
  and a sign are skipped, \<open>0x\<close> or \<open>0X\<close> selects radix 16 when no other radix is given,
  and the longest prefix of digits of the radix is the value.
\<close>

definition digit_value :: "char16 \<Rightarrow> nat" where
  "digit_value c =
    (if is_digit c then unat c - 0x30
     else if in_range CHR ''a'' CHR ''z'' c then unat c - 0x61 + 10
     else if in_range CHR ''A'' CHR ''Z'' c then unat c - 0x41 + 10
     else 36)"

definition radix_value :: "nat \<Rightarrow> jsstring \<Rightarrow> nat" where
  "radix_value R z = foldl (\<lambda>acc c. acc * R + digit_value c) 0 z"

definition parseInt :: "jsstring \<Rightarrow> int option \<Rightarrow> number" where
  "parseInt string radix =
    (let S = trimStart string;
         sign = (if S \<noteq> [] \<and> hd S = ch CHR ''-'' then - 1 else (1::int));
         S = (if S \<noteq> [] \<and> (hd S = ch CHR ''+'' \<or> hd S = ch CHR ''-'') then tl S else S);
         R = (case radix of None \<Rightarrow> 0 | Some r \<Rightarrow> r)
     in if R \<noteq> 0 \<and> (R < 2 \<or> 36 < R) then NaN
        else let stripPrefix = (R = 0 \<or> R = 16);
                 R = (if R = 0 then 10 else R);
                 hex = (stripPrefix \<and> (take 2 S = js ''0x'' \<or> take 2 S = js ''0X''));
                 S = (if hex then drop 2 S else S);
                 R = (if hex then 16 else R);
                 Z = takeWhile (\<lambda>c. digit_value c < nat R) S
             in if Z = [] then NaN
                else toNumber (sign * int (radix_value (nat R) Z)))"

definition digits_re :: regex where
  "digits_re = seq [Bol, Rep is_digit 1 None, Eol]"

definition parseIntSafe :: "jsstring \<Rightarrow> number option" where
  "parseIntSafe v = (if regex_test digits_re v then Some (parseInt v (Some 10)) else None)"

text \<open>The character classes of the URL patterns.\<close>

definition host_char :: "char16 \<Rightarrow> bool" where
  "host_char c =
    (in_range CHR ''a'' CHR ''z'' c \<or> in_range CHR ''A'' CHR ''Z'' c \<or> in_range CHR ''0'' CHR ''9'' c
     \<or> one_of ''-@:%._+~#='' c)"

definition tld_char :: "char16 \<Rightarrow> bool" where
  "tld_char c =
    (in_range CHR ''a'' CHR ''z'' c \<or> in_range CHR ''A'' CHR ''Z'' c \<or> in_range CHR ''0'' CHR ''9'' c
     \<or> one_of ''()'' c)"

definition path_char :: "char16 \<Rightarrow> bool" where
  "path_char c =
    (in_range CHR ''a'' CHR ''z'' c \<or> in_range CHR ''A'' CHR ''Z'' c \<or> in_range CHR ''0'' CHR ''9'' c
     \<or> one_of ''-()@:%_+.~#?&//='' c)"

definition scheme_body :: "regex list" where
  "scheme_body = [Lit (js ''http''), Opt (Lit (js ''s'')), Lit (js ''://'')]"

definition domain_body :: "regex list" where
  "domain_body =
    [Opt (Lit (js ''www.'')), Rep host_char 1 (Some 256), Lit (js ''.''),
     Rep tld_char 1 (Some 6), WordB, Rep path_char 0 None, Eol]"

definition scheme_re :: regex where
  "scheme_re = seq (Bol # scheme_body)"

definition url_re :: regex where
  "url_re = seq (Bol # scheme_body @ domain_body)"

definition domain_re :: regex where
  "domain_re = seq (Bol # domain_body)"

definition validateAndNormalizeUrl :: "jsstring \<Rightarrow> error + jsstring" where
  "validateAndNormalizeUrl url =
    (let trimmedUrl = trim url
     in if regex_test scheme_re trimmedUrl then
          (if \<not> regex_test url_re trimmedUrl then Inl (GraphQLError (js ''Invalid URL format.''))
           else Inr trimmedUrl)
        else
          (if \<not> regex_test domain_re trimmedUrl then Inl (GraphQLError (js ''Invalid domain format.''))
           else Inr (js ''https://'' @ trimmedUrl)))"

definition quote :: jsstring where
  "quote = [0x27]"

definition applyTakeConstraints :: "int \<Rightarrow> int \<Rightarrow> int \<Rightarrow> error + int" where
  "applyTakeConstraints mn mx v =
    (if v < mn \<or> v > mx then
       Inl (GraphQLError
         (quote @ js ''take'' @ quote @ js '' argument value '' @ quote @ numberToString v @ quote
          @ js '' is outside the valid range of '' @ quote @ numberToString mn @ quote
          @ js '' to '' @ quote @ numberToString mx @ quote @ js ''.''))
     else Inr v)"

definition applySkipConstraints :: "int \<Rightarrow> error + int" where
  "applySkipConstraints v =
    (if v < 0 then
       Inl (GraphQLError
         (quote @ js ''skip'' @ quote @ js '' argument value '' @ quote @ numberToString v @ quote
          @ js '' should be greater than or equal to 0.''))
     else Inr v)"

section \<open>Entities and the client of the record store\<close>

record link =
  link_id :: int
  link_createdAt :: int
  link_description :: jsstring
  link_url :: jsstring

record comment =
  comment_id :: int
  comment_createdAt :: int
  comment_body :: jsstring
  comment_linkId :: int

text \<open>The arguments that the resolvers pass to the client.\<close>

datatype string_filter = Contains jsstring

datatype link_where =
    Empty_where
  | OR "link_where list"
  | Description string_filter
  | Url string_filter

record link_findMany_args =
  fm_where :: link_where
  fm_skip :: int
  fm_take :: int

datatype sort_order = Asc | Desc

datatype comment_orderBy = CreatedAt sort_order

datatype comment_where = LinkId int

record comment_findMany_args =
  cfm_orderBy :: comment_orderBy
  cfm_where :: comment_where

record link_data =
  ld_url :: jsstring
  ld_description :: jsstring

record comment_data =
  cd_body :: jsstring
  cd_linkId :: number

text \<open>
  The resolvers receive the client in their context argument.  Every call of the
  client takes the state of the store and returns it, with either a result or the
  error that the promise is rejected with.
\<close>

record 'db prisma_client =
  link_findMany :: "link_findMany_args \<Rightarrow> 'db \<Rightarrow> (error + link list) \<times> 'db"
  link_findUnique :: "number \<Rightarrow> 'db \<Rightarrow> (error + link option) \<times> 'db"
  link_create :: "link_data \<Rightarrow> 'db \<Rightarrow> (error + link) \<times> 'db"
  comment_findMany :: "comment_findMany_args \<Rightarrow> 'db \<Rightarrow> (error + comment list) \<times> 'db"
  comment_findUnique :: "number \<Rightarrow> 'db \<Rightarrow> (error + comment option) \<times> 'db"
  comment_create :: "comment_data \<Rightarrow> 'db \<Rightarrow> (error + comment) \<times> 'db"

section \<open>Resolvers\<close>

text \<open>
  The arguments of the feed are optional; \<open>skip\<close> and \<open>take\<close> have the schema's type
  \<open>Int\<close>, so they are integers when present.
\<close>

record feed_args =
  filterNeedle :: "jsstring option"
  skip_arg :: "int option"
  take_arg :: "int option"

definition Query_feed ::
  "'db prisma_client \<Rightarrow> feed_args \<Rightarrow> 'db \<Rightarrow> (error + link list) \<times> 'db" where
  "Query_feed context args db =
    (let wh = (case filterNeedle args of
                 None \<Rightarrow> Empty_where
               | Some n \<Rightarrow> if n \<noteq> [] then OR [Description (Contains n), Url (Contains n)]
                           else Empty_where)
     in case applyTakeConstraints 1 50 (case take_arg args of None \<Rightarrow> 30 | Some t \<Rightarrow> t) of
          Inl e \<Rightarrow> (Inl e, db)
        | Inr tk \<Rightarrow>
            (case applySkipConstraints (case skip_arg args of None \<Rightarrow> 0 | Some k \<Rightarrow> k) of
               Inl e \<Rightarrow> (Inl e, db)
             | Inr sk \<Rightarrow>
                 link_findMany context \<lparr>fm_where = wh, fm_skip = sk, fm_take = tk\<rparr> db))"



definition Link_comments ::
  "'db prisma_client \<Rightarrow> link \<Rightarrow> 'db \<Rightarrow> (error + comment list) \<times> 'db" where
  "Link_comments context parent db =
    comment_findMany context
      \<lparr>cfm_orderBy = CreatedAt Desc, cfm_where = LinkId (link_id parent)\<rparr> db"

definition Comment_link ::
  "'db prisma_client \<Rightarrow> comment \<Rightarrow> 'db \<Rightarrow> (error + link option) \<times> 'db" where
  "Comment_link context parent db =
    link_findUnique context (Finite (comment_linkId parent)) db"

record postLink_args =
  pl_description :: jsstring
  pl_url :: jsstring

definition Mutation_postLink ::
  "'db prisma_client \<Rightarrow> postLink_args \<Rightarrow> 'db \<Rightarrow> (error + link) \<times> 'db" where
  "Mutation_postLink context args db =
    (case validateAndNormalizeUrl (pl_url args) of
       Inl e \<Rightarrow> (Inl e, db)
     | Inr normalizedUrl \<Rightarrow>
         if length (pl_description args) = 0 then
           (Inl (GraphQLError (js ''Cannot post link with empty description.'')), db)
         else
           link_create context
             \<lparr>ld_url = normalizedUrl, ld_description = pl_description args\<rparr> db)"

record postComment_args =
  pc_linkId :: jsstring
  pc_body :: jsstring

definition Mutation_postCommentOnLink ::
  "'db prisma_client \<Rightarrow> postComment_args \<Rightarrow> 'db \<Rightarrow> (error + comment) \<times> 'db" where
  "Mutation_postCommentOnLink context args db =
    (case parseIntSafe (pc_linkId args) of
       None \<Rightarrow>
         (Inl (GraphQLError
            (js ''Cannot post comment on non-existing link with id '' @ quote @ pc_linkId args
             @ quote)), db)
     | Some linkId \<Rightarrow>
         if length (pc_body args) = 0 then
           (Inl (GraphQLError (js ''Cannot post empty comment.'')), db)
         else
           (case comment_create context
                   \<lparr>cd_body = pc_body args, cd_linkId = parseInt (pc_linkId args) None\<rparr> db of
              (Inl err, db') \<Rightarrow>
                (if (case err of PrismaClientKnownRequestError code \<Rightarrow> code = js ''P2003''
                             | _ \<Rightarrow> False) then
                   Inl (GraphQLError
                     (js ''Cannot post comment on non-existing link with id '' @ quote
                      @ pc_linkId args @ quote @ js ''.''))
                 else Inl err, db')
            | (Inr newComment, db') \<Rightarrow> (Inr newComment, db')))"

section \<open>The record store\<close>

text \<open>
  Modelled from the spec: the record store behind the client (the storage engine and
  its client library are not part of the repository).  Its tables follow
  \<^verbatim>\<open>prisma/schema.prisma\<close>; its operations follow the description of the record
  store adapter: creation assigns the next identifier and the time of the store's clock,
  a comment must reference an existing link, a text filter keeps the records whose field
  contains the needle under the store's comparison of characters \<open>eqc\<close>, \<open>skip\<close> is
  applied before \<open>take\<close>, and comments are ordered by their creation time.
\<close>

text \<open>Modelled from the spec: the persisted state, the two tables of
  \<^verbatim>\<open>prisma/schema.prisma\<close> and the clock that gives the default creation time.\<close>

record store =
  links :: "link list"
  comments :: "comment list"
  clock :: int

text \<open>Modelled from the spec: the identifier that an autoincrement column assigns next.\<close>

definition next_id :: "int list \<Rightarrow> int" where
  "next_id ids = fold max ids 0 + 1"

text \<open>Modelled from the spec: the needle stands at the start of the text, under the store's
  comparison of characters.\<close>

definition matches_at :: "(char16 \<Rightarrow> char16 \<Rightarrow> bool) \<Rightarrow> jsstring \<Rightarrow> jsstring \<Rightarrow> bool" where
  "matches_at eqc needle text =
    (length needle \<le> length text \<and> list_all2 eqc needle (take (length needle) text))"

text \<open>Modelled from the spec: the text contains the needle as a substring.\<close>

fun contains :: "(char16 \<Rightarrow> char16 \<Rightarrow> bool) \<Rightarrow> jsstring \<Rightarrow> jsstring \<Rightarrow> bool" where
  "contains eqc needle [] = matches_at eqc needle []"
| "contains eqc needle (c # text) =
     (matches_at eqc needle (c # text) \<or> contains eqc needle text)"

text \<open>Modelled from the spec: the links that a filter of \<open>listLinks\<close> keeps.\<close>

fun eval_where :: "(char16 \<Rightarrow> char16 \<Rightarrow> bool) \<Rightarrow> link_where \<Rightarrow> link \<Rightarrow> bool" where
  "eval_where eqc Empty_where l = True"
| "eval_where eqc (OR ws) l = list_ex (\<lambda>w. eval_where eqc w l) ws"
| "eval_where eqc (Description (Contains n)) l = contains eqc n (link_description l)"
| "eval_where eqc (Url (Contains n)) l = contains eqc n (link_url l)"

text \<open>Modelled from the spec: the order of \<open>listCommentsForLink\<close>, a stable sort by creation
  time.\<close>

definition order_by :: "comment_orderBy \<Rightarrow> comment list \<Rightarrow> comment list" where
  "order_by ob cs =
    (case ob of
       CreatedAt Asc \<Rightarrow> sort_key comment_createdAt cs
     | CreatedAt Desc \<Rightarrow> sort_key (\<lambda>c. - comment_createdAt c) cs)"

text \<open>Modelled from the spec: \<open>listLinks\<close>, the filter, then \<open>skip\<close>, then \<open>take\<close>.\<close>

definition store_link_findMany ::
  "(char16 \<Rightarrow> char16 \<Rightarrow> bool) \<Rightarrow> link_findMany_args \<Rightarrow> store \<Rightarrow> (error + link list) \<times> store" where
  "store_link_findMany eqc q db =
    (Inr (take (nat (fm_take q)) (drop (nat (fm_skip q))
            (filter (eval_where eqc (fm_where q)) (links db)))), db)"

text \<open>Modelled from the spec: \<open>findLinkById\<close>; a number that is not an integer is no key of
  any link.\<close>

definition store_link_findUnique :: "number \<Rightarrow> store \<Rightarrow> (error + link option) \<times> store" where
  "store_link_findUnique n db =
    (Inr (case n of Finite i \<Rightarrow> find (\<lambda>l. link_id l = i) (links db) | _ \<Rightarrow> None), db)"

text \<open>Modelled from the spec: \<open>createLink\<close>, which assigns the identifier and the creation time.\<close>

definition store_link_create :: "link_data \<Rightarrow> store \<Rightarrow> (error + link) \<times> store" where
  "store_link_create d db =
    (let l = \<lparr>link_id = next_id (map link_id (links db)), link_createdAt = clock db,
              link_description = ld_description d, link_url = ld_url d\<rparr>
     in (Inr l, db\<lparr>links := links db @ [l]\<rparr>))"

text \<open>Modelled from the spec: \<open>listCommentsForLink\<close>.\<close>

definition store_comment_findMany ::
  "comment_findMany_args \<Rightarrow> store \<Rightarrow> (error + comment list) \<times> store" where
  "store_comment_findMany q db =
    (Inr (order_by (cfm_orderBy q)
            (filter (\<lambda>c. case cfm_where q of LinkId i \<Rightarrow> comment_linkId c = i) (comments db))), db)"

text \<open>Modelled from the spec: \<open>findCommentById\<close>.\<close>

definition store_comment_findUnique :: "number \<Rightarrow> store \<Rightarrow> (error + comment option) \<times> store" where
  "store_comment_findUnique n db =
    (Inr (case n of Finite i \<Rightarrow> find (\<lambda>c. comment_id c = i) (comments db) | _ \<Rightarrow> None), db)"

text \<open>Modelled from the spec: the foreign key, the identifier of an existing link.\<close>

definition references_link :: "store \<Rightarrow> number \<Rightarrow> int option" where
  "references_link db n =
    (case n of
       Finite i \<Rightarrow> if list_ex (\<lambda>l. link_id l = i) (links db) then Some i else None
     | _ \<Rightarrow> None)"

text \<open>Modelled from the spec: \<open>createComment\<close>, which fails with the code P2003 of a foreign key
  violation when the link does not exist.\<close>

definition store_comment_create :: "comment_data \<Rightarrow> store \<Rightarrow> (error + comment) \<times> store" where
  "store_comment_create d db =
    (case references_link db (cd_linkId d) of
       None \<Rightarrow> (Inl (PrismaClientKnownRequestError (js ''P2003'')), db)
     | Some i \<Rightarrow>
         let c = \<lparr>comment_id = next_id (map comment_id (comments db)),
                  comment_createdAt = clock db, comment_body = cd_body d, comment_linkId = i\<rparr>
         in (Inr c, db\<lparr>comments := comments db @ [c]\<rparr>))"

text \<open>Modelled from the spec: the client of the record store.\<close>

definition prisma :: "(char16 \<Rightarrow> char16 \<Rightarrow> bool) \<Rightarrow> store prisma_client" where
  "prisma eqc =
    \<lparr>link_findMany = store_link_findMany eqc,
     link_findUnique = store_link_findUnique,
     link_create = store_link_create,
     comment_findMany = store_comment_findMany,
     comment_findUnique = store_comment_findUnique,
     comment_create = store_comment_create\<rparr>"

section \<open>States of the store used in the examples\<close>

definition example_store :: store where
  "example_store =
    \<lparr>links =
       [\<lparr>link_id = 1, link_createdAt = 10,
         link_description = js ''The easiest way of setting up a GraphQL server'',
         link_url = js ''https://graphql-yoga.com''\<rparr>,
        \<lparr>link_id = 2, link_createdAt = 15,
         link_description = js ''An example'', link_url = js ''https://example.com''\<rparr>],
     comments =
       [\<lparr>comment_id = 1, comment_createdAt = 20, comment_body = js ''first'',
         comment_linkId = 1\<rparr>,
        \<lparr>comment_id = 2, comment_createdAt = 25, comment_body = js ''other'',
         comment_linkId = 2\<rparr>,
        \<lparr>comment_id = 3, comment_createdAt = 30, comment_body = js ''second'',
         comment_linkId = 1\<rparr>],
     clock = 40\<rparr>"



section \<open>Properties\<close>

subsection \<open>Validation of the arguments of the feed\<close>

text \<open>
  C3: a missing \<open>take\<close> counts as 30 and a missing \<open>skip\<close> as 0.  The feed fails with
  the validation error for \<open>take\<close> exactly when the effective \<open>take\<close> is outside 1 to 50
  (the message names the value, 1 and 50), with the validation error for \<open>skip\<close> when the
  effective \<open>skip\<close> is negative, and otherwise it is the store's list of links for the
  filter, \<open>skip\<close> and \<open>take\<close>.  The constraint on \<open>take\<close> fails at 0 and at 51 and returns
  30 at 30; the constraint on \<open>skip\<close> fails at -1 and returns 0 at 0.
\<close>

theorem feed_validation:
  "Query_feed client args db =
    (let tk = (case take_arg args of None \<Rightarrow> 30 | Some t \<Rightarrow> t);
         sk = (case skip_arg args of None \<Rightarrow> 0 | Some k \<Rightarrow> k)
     in if tk < 1 \<or> 50 < tk then
          (Inl (GraphQLError (quote @ js ''take' argument value '' @ quote @ numberToString tk
                  @ quote @ js '' is outside the valid range of '1' to '50'.'')), db)
        else if sk < 0 then
          (Inl (GraphQLError (quote @ js ''skip' argument value '' @ quote @ numberToString sk
                  @ quote @ js '' should be greater than or equal to 0.'')), db)
        else link_findMany client
               \<lparr>fm_where = (case filterNeedle args of None \<Rightarrow> Empty_where
                    | Some n \<Rightarrow> if n = [] then Empty_where
                               else OR [Description (Contains n), Url (Contains n)]),
                fm_skip = sk, fm_take = tk\<rparr> db)
   \<and> applyTakeConstraints 1 50 0 =
       Inl (GraphQLError
         (quote @ js ''take' argument value '0' is outside the valid range of '1' to '50'.''))
   \<and> applyTakeConstraints 1 50 51 =
       Inl (GraphQLError
         (quote @ js ''take' argument value '51' is outside the valid range of '1' to '50'.''))
   \<and> applyTakeConstraints 1 50 30 = Inr 30
   \<and> applySkipConstraints (- 1) =
       Inl (GraphQLError
         (quote @ js ''skip' argument value '-1' should be greater than or equal to 0.''))
   \<and> applySkipConstraints 0 = Inr 0"
proof -
  have d: "decimal 0 = js ''0''" "decimal 1 = js ''1''" "decimal 50 = js ''50''"
      "decimal 51 = js ''51''"
    by (simp_all add: decimal.simps js_def ch_def)
  have n: "numberToString 0 = js ''0''" "numberToString 1 = js ''1''"
      "numberToString 50 = js ''50''" "numberToString 51 = js ''51''"
      "numberToString (- 1) = js ''-1''"
    using d by (simp_all add: numberToString_def js_def)
  have msg: "js ''take' argument value '' = js ''take'' @ quote @ js '' argument value ''"
      "js '' is outside the valid range of '1' to '50'.''
        = js '' is outside the valid range of '' @ quote @ js ''1'' @ quote @ js '' to '' @ quote
          @ js ''50'' @ quote @ js ''.''"
      "js ''skip' argument value '' = js ''skip'' @ quote @ js '' argument value ''"
    by (simp_all add: js_def quote_def ch_def)
  have a: "applyTakeConstraints 1 50 v =
      (if v < 1 \<or> 50 < v then
         Inl (GraphQLError (quote @ js ''take' argument value '' @ quote @ numberToString v
                  @ quote @ js '' is outside the valid range of '1' to '50'.''))
       else Inr v)" for v
    by (simp add: applyTakeConstraints_def msg n)
  have b: "applySkipConstraints v =
      (if v < 0 then
         Inl (GraphQLError (quote @ js ''skip' argument value '' @ quote @ numberToString v
                  @ quote @ js '' should be greater than or equal to 0.''))
       else Inr v)" for v
    by (simp add: applySkipConstraints_def msg)
  have 1: "Query_feed client args db =
    (let tk = (case take_arg args of None \<Rightarrow> 30 | Some t \<Rightarrow> t);
         sk = (case skip_arg args of None \<Rightarrow> 0 | Some k \<Rightarrow> k)
     in if tk < 1 \<or> 50 < tk then
          (Inl (GraphQLError (quote @ js ''take' argument value '' @ quote @ numberToString tk
                  @ quote @ js '' is outside the valid range of '1' to '50'.'')), db)
        else if sk < 0 then
          (Inl (GraphQLError (quote @ js ''skip' argument value '' @ quote @ numberToString sk
                  @ quote @ js '' should be greater than or equal to 0.'')), db)
        else link_findMany client
               \<lparr>fm_where = (case filterNeedle args of None \<Rightarrow> Empty_where
                    | Some n \<Rightarrow> if n = [] then Empty_where
                               else OR [Description (Contains n), Url (Contains n)]),
                fm_skip = sk, fm_take = tk\<rparr> db)"
    unfolding Query_feed_def a b
    by (simp add: Let_def split: option.splits)
  have 2: "applyTakeConstraints 1 50 0 =
       Inl (GraphQLError
         (quote @ js ''take' argument value '0' is outside the valid range of '1' to '50'.''))"
    unfolding a by (simp add: n) (simp add: js_def quote_def ch_def)
  have 3: "applyTakeConstraints 1 50 51 =
       Inl (GraphQLError
         (quote @ js ''take' argument value '51' is outside the valid range of '1' to '50'.''))"
    unfolding a by (simp add: n) (simp add: js_def quote_def ch_def)
  have 4: "applyTakeConstraints 1 50 30 = Inr 30"
    unfolding a by simp
  have 5: "applySkipConstraints (- 1) =
       Inl (GraphQLError
         (quote @ js ''skip' argument value '-1' should be greater than or equal to 0.''))"
    unfolding b by (simp add: n) (simp add: js_def quote_def ch_def)
  have 6: "applySkipConstraints 0 = Inr 0"
    unfolding b by simp
  from 1 2 3 4 5 6 show ?thesis by blast
qed

subsection \<open>Evaluated examples\<close>

lemma yoga_url: "validateAndNormalizeUrl (js ''graphql-yoga.com'') = Inr (js ''https://graphql-yoga.com'')"
  by code_simp

lemma not_a_url: "validateAndNormalizeUrl (js ''not a url'') = Inl (GraphQLError (js ''Invalid domain format.''))"
  by code_simp

lemma nowhere_url: "validateAndNormalizeUrl (js ''http://nowhere'') = Inl (GraphQLError (js ''Invalid URL format.''))"
  by code_simp

lemma abc_not_integer: "parseIntSafe (js ''abc'') = None"
  by code_simp

lemma one_is_integer: "parseIntSafe (js ''1'') \<noteq> None"
  by code_simp

lemma contains_yoga: "contains (=) (js ''yoga'') (js ''https://graphql-yoga.com'')"
  by code_simp

lemma no_yoga_1: "\<not> contains (=) (js ''yoga'') (js ''https://example.com'')"
  by code_simp

lemma no_yoga_2: "\<not> contains (=) (js ''yoga'') (js ''An example'')"
  by code_simp

subsection \<open>Failed validation leaves the store alone\<close>

text \<open>
  C2: whenever validation fails (the URL or domain is invalid, the description is empty,
  the link identifier does not parse strictly, the body is empty, \<open>take\<close> is outside 1 to 50
  or \<open>skip\<close> is negative), the operation fails and the state of the store after the call is
  the state before it.  This holds for every client, hence the client is not called.
\<close>

theorem validation_failure_no_store_operation:
  "(isl (validateAndNormalizeUrl url) \<or> description = [] \<longrightarrow>
      isl (fst (Mutation_postLink client \<lparr>pl_description = description, pl_url = url\<rparr> db))
      \<and> snd (Mutation_postLink client \<lparr>pl_description = description, pl_url = url\<rparr> db) = db)
   \<and> (parseIntSafe linkId = None \<or> body = [] \<longrightarrow>
      isl (fst (Mutation_postCommentOnLink client \<lparr>pc_linkId = linkId, pc_body = body\<rparr> db))
      \<and> snd (Mutation_postCommentOnLink client \<lparr>pc_linkId = linkId, pc_body = body\<rparr> db) = db)
   \<and> ((case tk of None \<Rightarrow> 30 | Some t \<Rightarrow> t) < 1 \<or> 50 < (case tk of None \<Rightarrow> 30 | Some t \<Rightarrow> t)
        \<or> (case sk of None \<Rightarrow> 0 | Some k \<Rightarrow> k) < 0 \<longrightarrow>
      isl (fst (Query_feed client \<lparr>filterNeedle = needle, skip_arg = sk, take_arg = tk\<rparr> db))
      \<and> snd (Query_feed client \<lparr>filterNeedle = needle, skip_arg = sk, take_arg = tk\<rparr> db) = db)"
proof (intro conjI impI)
  assume "isl (validateAndNormalizeUrl url) \<or> description = []"
  then show "isl (fst (Mutation_postLink client \<lparr>pl_description = description, pl_url = url\<rparr> db))"
    and "snd (Mutation_postLink client \<lparr>pl_description = description, pl_url = url\<rparr> db) = db"
    by (auto simp add: Mutation_postLink_def split: sum.splits)
next
  assume "parseIntSafe linkId = None \<or> body = []"
  then show "isl (fst (Mutation_postCommentOnLink client \<lparr>pc_linkId = linkId, pc_body = body\<rparr> db))"
    and "snd (Mutation_postCommentOnLink client \<lparr>pc_linkId = linkId, pc_body = body\<rparr> db) = db"
    by (auto simp add: Mutation_postCommentOnLink_def split: option.splits)
next
  assume "(case tk of None \<Rightarrow> 30 | Some t \<Rightarrow> t) < 1 \<or> 50 < (case tk of None \<Rightarrow> 30 | Some t \<Rightarrow> t)
        \<or> (case sk of None \<Rightarrow> 0 | Some k \<Rightarrow> k) < 0"
  then show "isl (fst (Query_feed client \<lparr>filterNeedle = needle, skip_arg = sk, take_arg = tk\<rparr> db))"
    and "snd (Query_feed client \<lparr>filterNeedle = needle, skip_arg = sk, take_arg = tk\<rparr> db) = db"
    by (auto simp add: Query_feed_def applyTakeConstraints_def applySkipConstraints_def Let_def
        split: option.splits sum.splits)
qed

theorem validation_failure_no_store_operation_witness:
  "snd (Mutation_postLink (prisma (=))
         \<lparr>pl_description = js ''desc'', pl_url = js ''not a url''\<rparr> example_store) = example_store
   \<and> snd (Mutation_postLink (prisma (=))
         \<lparr>pl_description = js ''desc'', pl_url = js ''http://nowhere''\<rparr> example_store) = example_store
   \<and> snd (Mutation_postLink (prisma (=))
         \<lparr>pl_description = [], pl_url = js ''graphql-yoga.com''\<rparr> example_store) = example_store
   \<and> snd (Mutation_postCommentOnLink (prisma (=))
         \<lparr>pc_linkId = js ''abc'', pc_body = js ''hi''\<rparr> example_store) = example_store
   \<and> snd (Mutation_postCommentOnLink (prisma (=))
         \<lparr>pc_linkId = js ''1'', pc_body = []\<rparr> example_store) = example_store
   \<and> snd (Query_feed (prisma (=))
         \<lparr>filterNeedle = None, skip_arg = None, take_arg = Some 0\<rparr> example_store) = example_store
   \<and> snd (Query_feed (prisma (=))
         \<lparr>filterNeedle = None, skip_arg = None, take_arg = Some 51\<rparr> example_store) = example_store
   \<and> snd (Query_feed (prisma (=))
         \<lparr>filterNeedle = None, skip_arg = Some (- 1), take_arg = None\<rparr> example_store) = example_store"
proof -
  have u1: "isl (validateAndNormalizeUrl (js ''not a url''))" by (simp add: not_a_url)
  have u2: "isl (validateAndNormalizeUrl (js ''http://nowhere''))" by (simp add: nowhere_url)
  note v = validation_failure_no_store_operation [where client = "prisma (=)" and db = example_store]
  from u1 v [where url = "js ''not a url''" and description = "js ''desc''"]
  have 1: "snd (Mutation_postLink (prisma (=))
         \<lparr>pl_description = js ''desc'', pl_url = js ''not a url''\<rparr> example_store) = example_store"
    by blast
  from u2 v [where url = "js ''http://nowhere''" and description = "js ''desc''"]
  have 2: "snd (Mutation_postLink (prisma (=))
         \<lparr>pl_description = js ''desc'', pl_url = js ''http://nowhere''\<rparr> example_store) = example_store"
    by blast
  from v [where url = "js ''graphql-yoga.com''" and description = "[]"]
  have 3: "snd (Mutation_postLink (prisma (=))
         \<lparr>pl_description = [], pl_url = js ''graphql-yoga.com''\<rparr> example_store) = example_store"
    by blast
  from abc_not_integer v [where linkId = "js ''abc''" and body = "js ''hi''"]
  have 4: "snd (Mutation_postCommentOnLink (prisma (=))
         \<lparr>pc_linkId = js ''abc'', pc_body = js ''hi''\<rparr> example_store) = example_store"
    by blast
  from v [where linkId = "js ''1''" and body = "[]"]
  have 5: "snd (Mutation_postCommentOnLink (prisma (=))
         \<lparr>pc_linkId = js ''1'', pc_body = []\<rparr> example_store) = example_store"
    by blast
  from v [where tk = "Some 0" and sk = None and needle = None]
  have 6: "snd (Query_feed (prisma (=))
         \<lparr>filterNeedle = None, skip_arg = None, take_arg = Some 0\<rparr> example_store) = example_store"
    by simp
  from v [where tk = "Some 51" and sk = None and needle = None]
  have 7: "snd (Query_feed (prisma (=))
         \<lparr>filterNeedle = None, skip_arg = None, take_arg = Some 51\<rparr> example_store) = example_store"
    by simp
  from v [where tk = None and sk = "Some (- 1)" and needle = None]
  have 8: "snd (Query_feed (prisma (=))
         \<lparr>filterNeedle = None, skip_arg = Some (- 1), take_arg = None\<rparr> example_store) = example_store"
    by simp
  from 1 2 3 4 5 6 7 8 show ?thesis by blast
qed

subsection \<open>Posting a link\<close>

lemma next_id_fresh: "0 < next_id ids \<and> next_id ids \<notin> set ids"
proof -
  have m: "fold max ids 0 = Max (set (0 # ids))"
    by (simp only: Max.set_eq_fold)
  have "0 \<le> fold max ids 0" unfolding m by simp
  moreover have "x \<le> fold max ids 0" if "x \<in> set ids" for x
    unfolding m using that by simp
  ultimately show ?thesis
    by (fastforce simp add: next_id_def)
qed

text \<open>
  C6: posting a link first normalizes the URL (a failure of the normalization is the
  result), then rejects an empty description with the message
  \<open>Cannot post link with empty description.\<close>, and otherwise returns what the client's
  creation returns for the normalized URL and the given description.  With the record
  store that is a new link with the normalized URL, the given description and a positive
  identifier that no other link has, appended to the links.  Posting \<open>graphql-yoga.com\<close>
  with the description \<open>desc\<close> creates a link with the URL \<open>https://graphql-yoga.com\<close>.
\<close>

theorem postLink_creates:
  "(validateAndNormalizeUrl url = Inl e \<longrightarrow>
      Mutation_postLink client \<lparr>pl_description = d, pl_url = url\<rparr> db = (Inl e, db))
   \<and> (validateAndNormalizeUrl url = Inr n \<and> d = [] \<longrightarrow>
      Mutation_postLink client \<lparr>pl_description = d, pl_url = url\<rparr> db =
        (Inl (GraphQLError (js ''Cannot post link with empty description.'')), db))
   \<and> (validateAndNormalizeUrl url = Inr n \<and> d \<noteq> [] \<longrightarrow>
      Mutation_postLink client \<lparr>pl_description = d, pl_url = url\<rparr> db =
        link_create client \<lparr>ld_url = n, ld_description = d\<rparr> db
      \<and> (\<exists>l. Mutation_postLink (prisma eqc) \<lparr>pl_description = d, pl_url = url\<rparr> st =
                 (Inr l, st\<lparr>links := links st @ [l]\<rparr>)
               \<and> link_url l = n \<and> link_description l = d \<and> 0 < link_id l
               \<and> link_id l \<notin> link_id ` set (links st)))
   \<and> (\<exists>l. Mutation_postLink (prisma eqc)
               \<lparr>pl_description = js ''desc'', pl_url = js ''graphql-yoga.com''\<rparr> st =
                 (Inr l, st\<lparr>links := links st @ [l]\<rparr>)
             \<and> link_url l = js ''https://graphql-yoga.com'' \<and> link_description l = js ''desc''
             \<and> 0 < link_id l)"
proof -
  have created: "\<exists>l. Mutation_postLink (prisma eqc) \<lparr>pl_description = d', pl_url = u\<rparr> st =
                 (Inr l, st\<lparr>links := links st @ [l]\<rparr>)
               \<and> link_url l = n' \<and> link_description l = d' \<and> 0 < link_id l
               \<and> link_id l \<notin> link_id ` set (links st)"
    if "validateAndNormalizeUrl u = Inr n'" and "d' \<noteq> []" for u n' d'
    using that next_id_fresh [of "map link_id (links st)"]
    by (simp add: Mutation_postLink_def prisma_def store_link_create_def Let_def)
  have "js ''desc'' \<noteq> []" by (simp add: js_def)
  from created [OF yoga_url this] have 4:
    "\<exists>l. Mutation_postLink (prisma eqc)
               \<lparr>pl_description = js ''desc'', pl_url = js ''graphql-yoga.com''\<rparr> st =
                 (Inr l, st\<lparr>links := links st @ [l]\<rparr>)
             \<and> link_url l = js ''https://graphql-yoga.com'' \<and> link_description l = js ''desc''
             \<and> 0 < link_id l"
    by blast
  have 1: "validateAndNormalizeUrl url = Inl e \<longrightarrow>
      Mutation_postLink client \<lparr>pl_description = d, pl_url = url\<rparr> db = (Inl e, db)"
    by (simp add: Mutation_postLink_def)
  have 2: "validateAndNormalizeUrl url = Inr n \<and> d = [] \<longrightarrow>
      Mutation_postLink client \<lparr>pl_description = d, pl_url = url\<rparr> db =
        (Inl (GraphQLError (js ''Cannot post link with empty description.'')), db)"
    by (simp add: Mutation_postLink_def)
  have 3: "validateAndNormalizeUrl url = Inr n \<and> d \<noteq> [] \<longrightarrow>
      Mutation_postLink client \<lparr>pl_description = d, pl_url = url\<rparr> db =
        link_create client \<lparr>ld_url = n, ld_description = d\<rparr> db
      \<and> (\<exists>l. Mutation_postLink (prisma eqc) \<lparr>pl_description = d, pl_url = url\<rparr> st =
                 (Inr l, st\<lparr>links := links st @ [l]\<rparr>)
               \<and> link_url l = n \<and> link_description l = d \<and> 0 < link_id l
               \<and> link_id l \<notin> link_id ` set (links st))"
    using created [of url n d] by (simp add: Mutation_postLink_def)
  from 1 2 3 4 show ?thesis by blast
qed

theorem postLink_creates_witness:
  "Mutation_postLink (prisma (=)) \<lparr>pl_description = js ''desc'', pl_url = js ''not a url''\<rparr>
      \<lparr>links = [], comments = [], clock = 7\<rparr>
     = (Inl (GraphQLError (js ''Invalid domain format.'')), \<lparr>links = [], comments = [], clock = 7\<rparr>)
   \<and> Mutation_postLink (prisma (=)) \<lparr>pl_description = [], pl_url = js ''graphql-yoga.com''\<rparr>
      \<lparr>links = [], comments = [], clock = 7\<rparr>
     = (Inl (GraphQLError (js ''Cannot post link with empty description.'')),
        \<lparr>links = [], comments = [], clock = 7\<rparr>)
   \<and> Mutation_postLink (prisma (=)) \<lparr>pl_description = js ''desc'', pl_url = js ''graphql-yoga.com''\<rparr>
      \<lparr>links = [], comments = [], clock = 7\<rparr>
     = (Inr \<lparr>link_id = 1, link_createdAt = 7, link_description = js ''desc'',
             link_url = js ''https://graphql-yoga.com''\<rparr>,
        \<lparr>links = [\<lparr>link_id = 1, link_createdAt = 7, link_description = js ''desc'',
             link_url = js ''https://graphql-yoga.com''\<rparr>], comments = [], clock = 7\<rparr>)"
proof -
  have d: "js ''desc'' \<noteq> []" by (simp add: js_def)
  note a = postLink_creates [where url = "js ''not a url''"
      and e = "GraphQLError (js ''Invalid domain format.'')" and client = "prisma (=)"
      and d = "js ''desc''" and db = "\<lparr>links = [], comments = [], clock = 7\<rparr>"]
  note b = postLink_creates [where url = "js ''graphql-yoga.com''"
      and n = "js ''https://graphql-yoga.com''" and d = "[]" and client = "prisma (=)"
      and db = "\<lparr>links = [], comments = [], clock = 7\<rparr>"]
  note c = postLink_creates [where url = "js ''graphql-yoga.com''"
      and n = "js ''https://graphql-yoga.com''" and d = "js ''desc''" and client = "prisma (=)"
      and db = "\<lparr>links = [], comments = [], clock = 7\<rparr>"]
  from a not_a_url have 1: "Mutation_postLink (prisma (=))
      \<lparr>pl_description = js ''desc'', pl_url = js ''not a url''\<rparr>
      \<lparr>links = [], comments = [], clock = 7\<rparr>
     = (Inl (GraphQLError (js ''Invalid domain format.'')), \<lparr>links = [], comments = [], clock = 7\<rparr>)"
    by blast
  from b yoga_url have 2: "Mutation_postLink (prisma (=))
      \<lparr>pl_description = [], pl_url = js ''graphql-yoga.com''\<rparr>
      \<lparr>links = [], comments = [], clock = 7\<rparr>
     = (Inl (GraphQLError (js ''Cannot post link with empty description.'')),
        \<lparr>links = [], comments = [], clock = 7\<rparr>)"
    by blast
  from c yoga_url d have "Mutation_postLink (prisma (=))
      \<lparr>pl_description = js ''desc'', pl_url = js ''graphql-yoga.com''\<rparr>
      \<lparr>links = [], comments = [], clock = 7\<rparr>
     = link_create (prisma (=)) \<lparr>ld_url = js ''https://graphql-yoga.com'', ld_description = js ''desc''\<rparr>
        \<lparr>links = [], comments = [], clock = 7\<rparr>"
    by blast
  then have 3: "Mutation_postLink (prisma (=))
      \<lparr>pl_description = js ''desc'', pl_url = js ''graphql-yoga.com''\<rparr>
      \<lparr>links = [], comments = [], clock = 7\<rparr>
     = (Inr \<lparr>link_id = 1, link_createdAt = 7, link_description = js ''desc'',
             link_url = js ''https://graphql-yoga.com''\<rparr>,
        \<lparr>links = [\<lparr>link_id = 1, link_createdAt = 7, link_description = js ''desc'',
             link_url = js ''https://graphql-yoga.com''\<rparr>], comments = [], clock = 7\<rparr>)"
    by (simp add: prisma_def store_link_create_def next_id_def Let_def)
  from 1 2 3 show ?thesis by blast
qed

subsection \<open>The filtered feed\<close>

lemma contains_iff:
  "contains eqc n t \<longleftrightarrow> (\<exists>pre mid post. t = pre @ mid @ post \<and> list_all2 eqc n mid)"
proof (induction t)
  case Nil
  show ?case by (auto simp add: matches_at_def)
next
  case (Cons c t)
  have a: "matches_at eqc n (c # t) \<longleftrightarrow> (\<exists>mid post. c # t = mid @ post \<and> list_all2 eqc n mid)"
  proof
    assume "matches_at eqc n (c # t)"
    then have "c # t = take (length n) (c # t) @ drop (length n) (c # t)
        \<and> list_all2 eqc n (take (length n) (c # t))"
      by (simp add: matches_at_def)
    then show "\<exists>mid post. c # t = mid @ post \<and> list_all2 eqc n mid" by blast
  next
    assume "\<exists>mid post. c # t = mid @ post \<and> list_all2 eqc n mid"
    then obtain mid post where e: "c # t = mid @ post" and l: "list_all2 eqc n mid" by blast
    from l have "length n = length mid" by (rule list_all2_lengthD)
    with e l show "matches_at eqc n (c # t)"
      by (simp add: matches_at_def)
  qed
  show ?case
  proof
    assume "contains eqc n (c # t)"
    then consider "matches_at eqc n (c # t)" | "contains eqc n t" by auto
    then show "\<exists>pre mid post. c # t = pre @ mid @ post \<and> list_all2 eqc n mid"
    proof cases
      case 1
      with a obtain mid post where "c # t = [] @ mid @ post \<and> list_all2 eqc n mid" by auto
      then show ?thesis by blast
    next
      case 2
      with Cons.IH obtain pre mid post where "t = pre @ mid @ post" "list_all2 eqc n mid" by blast
      then have "c # t = (c # pre) @ mid @ post \<and> list_all2 eqc n mid" by simp
      then show ?thesis by blast
    qed
  next
    assume "\<exists>pre mid post. c # t = pre @ mid @ post \<and> list_all2 eqc n mid"
    then obtain pre mid post where e: "c # t = pre @ mid @ post" and l: "list_all2 eqc n mid"
      by blast
    show "contains eqc n (c # t)"
    proof (cases pre)
      case Nil
      with e l have "\<exists>mid post. c # t = mid @ post \<and> list_all2 eqc n mid" by auto
      with a have "matches_at eqc n (c # t)" by simp
      then show ?thesis by simp
    next
      case (Cons p pre')
      with e have "t = pre' @ mid @ post" by simp
      with l Cons.IH have "contains eqc n t" by blast
      then show ?thesis by simp
    qed
  qed
qed

text \<open>
  C4: with a valid \<open>take\<close> and \<open>skip\<close>, the feed for a non-empty needle is the sequence of
  the links whose description or URL contains the needle, with \<open>skip\<close> links dropped and
  then at most \<open>take\<close> links kept; without a needle (or with the empty needle) no link is
  filtered out.  Containment is that some contiguous part of the field equals the needle,
  character by character under the store's comparison.
\<close>

theorem feed_filter:
  "1 \<le> (case tk of None \<Rightarrow> 30 | Some t \<Rightarrow> t) \<Longrightarrow> (case tk of None \<Rightarrow> 30 | Some t \<Rightarrow> t) \<le> 50 \<Longrightarrow>
   0 \<le> (case sk of None \<Rightarrow> 0 | Some k \<Rightarrow> k) \<Longrightarrow>
   (needle \<noteq> [] \<longrightarrow>
      Query_feed (prisma eqc) \<lparr>filterNeedle = Some needle, skip_arg = sk, take_arg = tk\<rparr> db =
        (Inr (take (nat (case tk of None \<Rightarrow> 30 | Some t \<Rightarrow> t))
               (drop (nat (case sk of None \<Rightarrow> 0 | Some k \<Rightarrow> k))
                 (filter (\<lambda>l. contains eqc needle (link_description l)
                             \<or> contains eqc needle (link_url l)) (links db)))), db))
   \<and> Query_feed (prisma eqc) \<lparr>filterNeedle = None, skip_arg = sk, take_arg = tk\<rparr> db =
        (Inr (take (nat (case tk of None \<Rightarrow> 30 | Some t \<Rightarrow> t))
               (drop (nat (case sk of None \<Rightarrow> 0 | Some k \<Rightarrow> k)) (links db))), db)
   \<and> Query_feed (prisma eqc) \<lparr>filterNeedle = Some [], skip_arg = sk, take_arg = tk\<rparr> db =
        Query_feed (prisma eqc) \<lparr>filterNeedle = None, skip_arg = sk, take_arg = tk\<rparr> db
   \<and> (contains eqc needle field \<longleftrightarrow>
        (\<exists>pre mid post. field = pre @ mid @ post \<and> list_all2 eqc needle mid))"
proof -
  assume r: "1 \<le> (case tk of None \<Rightarrow> 30 | Some t \<Rightarrow> t)" "(case tk of None \<Rightarrow> 30 | Some t \<Rightarrow> t) \<le> 50"
    "0 \<le> (case sk of None \<Rightarrow> 0 | Some k \<Rightarrow> k)"
  have a: "applyTakeConstraints 1 50 (case tk of None \<Rightarrow> 30 | Some t \<Rightarrow> t)
      = Inr (case tk of None \<Rightarrow> 30 | Some t \<Rightarrow> t)"
    using r by (simp add: applyTakeConstraints_def)
  have b: "applySkipConstraints (case sk of None \<Rightarrow> 0 | Some k \<Rightarrow> k)
      = Inr (case sk of None \<Rightarrow> 0 | Some k \<Rightarrow> k)"
    using r by (simp add: applySkipConstraints_def)
  have w: "eval_where eqc (OR [Description (Contains needle), Url (Contains needle)])
      = (\<lambda>l. contains eqc needle (link_description l) \<or> contains eqc needle (link_url l))"
    by (rule ext) simp
  have 1: "needle \<noteq> [] \<longrightarrow>
      Query_feed (prisma eqc) \<lparr>filterNeedle = Some needle, skip_arg = sk, take_arg = tk\<rparr> db =
        (Inr (take (nat (case tk of None \<Rightarrow> 30 | Some t \<Rightarrow> t))
               (drop (nat (case sk of None \<Rightarrow> 0 | Some k \<Rightarrow> k))
                 (filter (\<lambda>l. contains eqc needle (link_description l)
                             \<or> contains eqc needle (link_url l)) (links db)))), db)"
    by (simp add: Query_feed_def a b prisma_def store_link_findMany_def w)
  have 2: "Query_feed (prisma eqc) \<lparr>filterNeedle = None, skip_arg = sk, take_arg = tk\<rparr> db =
        (Inr (take (nat (case tk of None \<Rightarrow> 30 | Some t \<Rightarrow> t))
               (drop (nat (case sk of None \<Rightarrow> 0 | Some k \<Rightarrow> k)) (links db))), db)"
    by (simp add: Query_feed_def a b prisma_def store_link_findMany_def)
  have 3: "Query_feed (prisma eqc) \<lparr>filterNeedle = Some [], skip_arg = sk, take_arg = tk\<rparr> db =
        Query_feed (prisma eqc) \<lparr>filterNeedle = None, skip_arg = sk, take_arg = tk\<rparr> db"
    by (simp add: Query_feed_def a b)
  from 1 2 3 contains_iff [of eqc needle field] show ?thesis by blast
qed

theorem feed_filter_witness:
  "Query_feed (prisma (=)) \<lparr>filterNeedle = Some (js ''yoga''), skip_arg = Some 0, take_arg = Some 10\<rparr>
      example_store =
    (Inr [\<lparr>link_id = 1, link_createdAt = 10,
           link_description = js ''The easiest way of setting up a GraphQL server'',
           link_url = js ''https://graphql-yoga.com''\<rparr>], example_store)
   \<and> Query_feed (prisma (=)) \<lparr>filterNeedle = None, skip_arg = Some 1, take_arg = Some 10\<rparr>
      example_store =
    (Inr [\<lparr>link_id = 2, link_createdAt = 15,
           link_description = js ''An example'', link_url = js ''https://example.com''\<rparr>],
     example_store)"
proof -
  have n: "js ''yoga'' \<noteq> []" by (simp add: js_def)
  note a = feed_filter [where tk = "Some 10" and sk = "Some 0" and needle = "js ''yoga''"
      and eqc = "(=)" and db = example_store]
  note b = feed_filter [where tk = "Some 10" and sk = "Some 1" and needle = "js ''yoga''"
      and eqc = "(=)" and db = example_store]
  from a n have 1: "Query_feed (prisma (=))
      \<lparr>filterNeedle = Some (js ''yoga''), skip_arg = Some 0, take_arg = Some 10\<rparr> example_store =
    (Inr [\<lparr>link_id = 1, link_createdAt = 10,
           link_description = js ''The easiest way of setting up a GraphQL server'',
           link_url = js ''https://graphql-yoga.com''\<rparr>], example_store)"
    by (simp add: example_store_def contains_yoga no_yoga_1 no_yoga_2)
  from b have 2: "Query_feed (prisma (=))
      \<lparr>filterNeedle = None, skip_arg = Some 1, take_arg = Some 10\<rparr> example_store =
    (Inr [\<lparr>link_id = 2, link_createdAt = 15,
           link_description = js ''An example'', link_url = js ''https://example.com''\<rparr>],
     example_store)"
    by (simp add: example_store_def)
  from 1 2 show ?thesis by blast
qed

subsection \<open>Comments of a link\<close>

text \<open>
  C8: the comments of a link are exactly the comments of the store whose link identifier
  is the identifier of the link, in descending order of their creation time: a comment
  created later than another one stands before it.
\<close>

theorem link_comments_newest_first:
  "\<exists>cs. Link_comments (prisma eqc) parent db = (Inr cs, db)
     \<and> mset cs = mset (filter (\<lambda>c. comment_linkId c = link_id parent) (comments db))
     \<and> sorted (rev (map comment_createdAt cs))
     \<and> (\<forall>i j. i < length cs \<and> j < length cs
            \<and> comment_createdAt (cs ! i) < comment_createdAt (cs ! j) \<longrightarrow> j < i)"
proof -
  define cs where "cs = sort_key (\<lambda>c. - comment_createdAt c)
      (filter (\<lambda>c. comment_linkId c = link_id parent) (comments db))"
  have r: "Link_comments (prisma eqc) parent db = (Inr cs, db)"
    by (simp add: Link_comments_def prisma_def store_comment_findMany_def order_by_def cs_def)
  have m: "mset cs = mset (filter (\<lambda>c. comment_linkId c = link_id parent) (comments db))"
    by (simp add: cs_def)
  have s: "sorted (map (\<lambda>c. - comment_createdAt c) cs)"
    unfolding cs_def by (rule sorted_sort_key)
  have nth: "j < i" if "i < length cs" "j < length cs"
      "comment_createdAt (cs ! i) < comment_createdAt (cs ! j)" for i j
  proof (rule ccontr)
    assume "\<not> j < i"
    then have "i \<le> j" by simp
    with s that have "map (\<lambda>c. - comment_createdAt c) cs ! i \<le> map (\<lambda>c. - comment_createdAt c) cs ! j"
      by (simp add: sorted_iff_nth_mono del: nth_map)
    with that show False by simp
  qed
  have "rev (map comment_createdAt cs) = map uminus (rev (map (\<lambda>c. - comment_createdAt c) cs))"
    by (simp add: rev_map comp_def)
  have d: "sorted (rev (map comment_createdAt cs))"
  proof -
    have "sorted_wrt (\<lambda>x y. y \<le> x) (map comment_createdAt cs)"
      using s by (simp add: sorted_wrt_map)
    then show ?thesis by (simp add: sorted_wrt_rev)
  qed
  from r m d nth show ?thesis by blast
qed

theorem link_comments_newest_first_witness:
  "Link_comments (prisma (=))
      \<lparr>link_id = 1, link_createdAt = 10,
       link_description = js ''The easiest way of setting up a GraphQL server'',
       link_url = js ''https://graphql-yoga.com''\<rparr> example_store =
    (Inr [\<lparr>comment_id = 3, comment_createdAt = 30, comment_body = js ''second'', comment_linkId = 1\<rparr>,
          \<lparr>comment_id = 1, comment_createdAt = 20, comment_body = js ''first'', comment_linkId = 1\<rparr>],
     example_store)"
  using link_comments_newest_first [where eqc = "(=)" and db = example_store
      and parent = "\<lparr>link_id = 1, link_createdAt = 10,
       link_description = js ''The easiest way of setting up a GraphQL server'',
       link_url = js ''https://graphql-yoga.com''\<rparr>"]
  by (simp add: Link_comments_def prisma_def store_comment_findMany_def order_by_def example_store_def)

subsection \<open>Facts about the matcher\<close>

lemma ends_Lit_Nil: "ends (Lit []) s i = [i]"
  by simp

lemma seq_Nil: "seq [] = Lit []"
  by (simp add: seq_def)

lemma seq_Cons: "seq (r # rs) = Cat r (seq rs)"
  by (simp add: seq_def)

lemma regex_test_Bol: "regex_test (Cat Bol r) s \<longleftrightarrow> ends r s 0 \<noteq> []"
proof -
  have "ends (Cat Bol r) s i = (if i = 0 then ends r s 0 else [])" for i
    by simp
  then show ?thesis
    by (auto simp add: regex_test_def list_ex_iff simp del: ends.simps upt_Suc)
qed

lemma concat_map_nonempty: "concat (map f xs) \<noteq> [] \<longleftrightarrow> (\<exists>x\<in>set xs. f x \<noteq> [])"
  by (induction xs) auto

lemma ends_Cat_nonempty:
  "ends (Cat a b) s i \<noteq> [] \<longleftrightarrow> (\<exists>j\<in>set (ends a s i). ends b s j \<noteq> [])"
  by (simp add: concat_map_nonempty)

lemma set_ends_Rep:
  "set (ends (Rep p lo hi) s i) =
     {i + k | k. lo \<le> k \<and> k \<le> length (takeWhile p (drop i s))
                 \<and> (case hi of None \<Rightarrow> True | Some h \<Rightarrow> k \<le> h)}"
  by (auto simp add: Let_def split: option.splits)

lemma length_takeWhile_all:
  "length (takeWhile P xs) = length xs \<longleftrightarrow> (\<forall>x\<in>set xs. P x)"
proof
  assume a: "length (takeWhile P xs) = length xs"
  have "length (takeWhile P xs @ dropWhile P xs) = length xs" by simp
  then have "length (takeWhile P xs) + length (dropWhile P xs) = length xs"
    by (simp only: length_append)
  with a have "dropWhile P xs = []" by simp
  then show "\<forall>x\<in>set xs. P x" by (simp add: dropWhile_eq_Nil_conv)
next
  assume "\<forall>x\<in>set xs. P x"
  then have "takeWhile P xs = xs" by (simp add: takeWhile_eq_all_conv)
  then show "length (takeWhile P xs) = length xs" by (rule arg_cong)
qed

lemma regex_test_digits: "regex_test digits_re s \<longleftrightarrow> s \<noteq> [] \<and> list_all is_digit s"
proof -
  have e: "ends (seq [Eol]) s j \<noteq> [] \<longleftrightarrow> j = length s" for j
    by (simp add: seq_Cons seq_Nil)
  have "regex_test digits_re s \<longleftrightarrow> ends (Cat (Rep is_digit 1 None) (seq [Eol])) s 0 \<noteq> []"
    by (simp only: digits_re_def seq_Cons regex_test_Bol)
  also have "\<dots> \<longleftrightarrow> (\<exists>j\<in>set (ends (Rep is_digit 1 None) s 0). j = length s)"
    by (simp only: ends_Cat_nonempty e)
  also have "\<dots> \<longleftrightarrow> 1 \<le> length s \<and> length s \<le> length (takeWhile is_digit s)"
    by (auto simp add: set_ends_Rep simp del: ends.simps)
  also have "\<dots> \<longleftrightarrow> s \<noteq> [] \<and> length (takeWhile is_digit s) = length s"
    using length_takeWhile_le [of is_digit s] by (cases s) auto
  also have "\<dots> \<longleftrightarrow> s \<noteq> [] \<and> list_all is_digit s"
    by (simp only: length_takeWhile_all list_all_iff)
  finally show ?thesis .
qed

lemma concat_map_concat_map:
  "concat (map (\<lambda>j. concat (map g (h j))) xs) = concat (map g (concat (map h xs)))"
  by (induction xs) simp_all

lemma ends_foldr_Cat:
  "ends (foldr Cat rs r) s i = concat (map (ends r s) (ends (seq rs) s i))"
proof (induction rs arbitrary: i)
  case Nil
  show ?case by (simp add: seq_def)
next
  case (Cons x rs)
  have "ends (foldr Cat (x # rs) r) s i = concat (map (ends (foldr Cat rs r) s) (ends x s i))"
    by simp
  also have "\<dots> = concat (map (\<lambda>j. concat (map (ends r s) (ends (seq rs) s j))) (ends x s i))"
  proof -
    have "ends (foldr Cat rs r) s = (\<lambda>j. concat (map (ends r s) (ends (seq rs) s j)))"
      by (rule ext) (rule Cons.IH)
    then show ?thesis by (simp only:)
  qed
  also have "\<dots> = concat (map (ends r s) (concat (map (ends (seq rs) s) (ends x s i))))"
    by (rule concat_map_concat_map)
  also have "\<dots> = concat (map (ends r s) (ends (seq (x # rs)) s i))"
    by (simp add: seq_Cons)
  finally show ?case .
qed

lemma ends_seq_append:
  "ends (seq (rs @ rs')) s i = concat (map (ends (seq rs') s) (ends (seq rs) s i))"
  using ends_foldr_Cat [of rs "seq rs'" s i] by (simp add: seq_def)

subsection \<open>Facts about characters\<close>

lemma is_digit_iff: "is_digit c \<longleftrightarrow> 0x30 \<le> unat c \<and> unat c \<le> 0x39"
  by (simp add: is_digit_def in_range_def ch_def word_le_nat_alt)

lemma digit_value_digit: "is_digit c \<Longrightarrow> digit_value c = unat c - 0x30"
  by (simp add: digit_value_def)

lemma digit_value_less_10: "digit_value c < 10 \<longleftrightarrow> is_digit c"
  by (auto simp add: digit_value_def is_digit_iff)

lemma digit_not_whitespace: "is_digit c \<Longrightarrow> \<not> is_whitespace c"
  by (auto simp add: is_digit_iff is_whitespace_def whitespace_units_def)

lemma digit_not_sign: "is_digit c \<Longrightarrow> c \<noteq> ch CHR ''+'' \<and> c \<noteq> ch CHR ''-''"
  by (auto simp add: is_digit_iff ch_def)

lemma digit_not_x: "is_digit c \<Longrightarrow> c \<noteq> ch CHR ''x'' \<and> c \<noteq> ch CHR ''X''"
  by (auto simp add: is_digit_iff ch_def)

subsection \<open>Facts about numbers\<close>

lemma bit_length_le: "bit_length n \<le> k \<longleftrightarrow> n < 2 ^ k"
proof (induction n arbitrary: k rule: bit_length.induct)
  case (1 n)
  show ?case
  proof (cases "n = 0")
    case True
    then show ?thesis by (simp add: bit_length.simps)
  next
    case False
    show ?thesis
    proof (cases k)
      case 0
      with False show ?thesis by (simp add: bit_length.simps)
    next
      case (Suc k')
      have "bit_length n \<le> k \<longleftrightarrow> bit_length (n div 2) \<le> k'"
        using False Suc by (simp add: bit_length.simps [of n])
      also have "\<dots> \<longleftrightarrow> n div 2 < 2 ^ k'"
        using False by (rule "1.IH")
      also have "\<dots> \<longleftrightarrow> n < 2 ^ k"
        using Suc by auto
      finally show ?thesis .
    qed
  qed
qed

lemma round53_exact: "n \<le> 2 ^ 53 \<Longrightarrow> round53 n = n"
proof (cases "n < 2 ^ 53")
  case True
  then have "bit_length n \<le> 53" by (simp only: bit_length_le)
  then show ?thesis by (simp add: round53_def)
next
  case False
  assume "n \<le> 2 ^ 53"
  with False have n: "n = 2 ^ 53" by simp
  have "bit_length n \<le> 54" unfolding bit_length_le n by simp
  moreover have "\<not> bit_length n \<le> 53" unfolding bit_length_le n by simp
  ultimately have "bit_length n = 54" by simp
  then show ?thesis by (simp add: round53_def n)
qed

lemma toNumber_exact: "n \<le> 2 ^ 53 \<Longrightarrow> toNumber (int n) = Finite (int n)"
proof -
  assume a: "n \<le> 2 ^ 53"
  then have "n < 2 ^ 1024"
    by (rule order_le_less_trans) simp
  then have "bit_length n \<le> 1024" by (simp only: bit_length_le)
  with a show ?thesis
    by (simp add: toNumber_def round53_exact sgn_if)
qed

subsection \<open>Facts about the parse of integers\<close>

lemma takeWhile_digits_prefix:
  assumes "list_all is_digit ds" and "rest = [] \<or> \<not> is_digit (hd rest)"
  shows "takeWhile (\<lambda>c. digit_value c < 10) (ds @ rest) = ds"
proof -
  have "takeWhile is_digit rest = []"
    using assms(2) by (cases rest) auto
  moreover have "takeWhile is_digit (ds @ rest) = ds @ takeWhile is_digit rest"
    using assms(1) by (intro takeWhile_append2) (simp add: list_all_iff)
  ultimately show ?thesis by (simp add: digit_value_less_10)
qed

lemma parseInt_digits_prefix:
  assumes "ds \<noteq> []" and "list_all is_digit ds" and "rest = [] \<or> \<not> is_digit (hd rest)"
    and "radix = Some 10 \<or>
         radix = None \<and> take 2 (ds @ rest) \<noteq> js ''0x'' \<and> take 2 (ds @ rest) \<noteq> js ''0X''"
  shows "parseInt (ds @ rest) radix = toNumber (int (radix_value 10 ds))"
proof -
  from assms(1) obtain d ds' where ds: "ds = d # ds'" by (cases ds) auto
  with assms(2) have d: "is_digit d" by simp
  have t: "trimStart (ds @ rest) = ds @ rest"
    using digit_not_whitespace [OF d] by (simp add: trimStart_def ds)
  have h: "hd (ds @ rest) = d" "ds @ rest \<noteq> []" by (simp_all add: ds)
  note z = takeWhile_digits_prefix [OF assms(2,3)]
  from assms(4) show ?thesis
  proof
    assume "radix = Some 10"
    then show ?thesis
      using digit_not_sign [OF d] assms(1)
      by (simp add: parseInt_def Let_def t h z)
  next
    assume "radix = None \<and> take 2 (ds @ rest) \<noteq> js ''0x'' \<and> take 2 (ds @ rest) \<noteq> js ''0X''"
    then show ?thesis
      using digit_not_sign [OF d] assms(1)
      by (simp add: parseInt_def Let_def t h z)
  qed
qed

lemma parseIntSafe_eq:
  "parseIntSafe s =
    (if s \<noteq> [] \<and> list_all is_digit s then Some (toNumber (int (radix_value 10 s))) else None)"
  using parseInt_digits_prefix [of s "[]" "Some 10"]
  by (simp add: parseIntSafe_def regex_test_digits)

lemma decimal_digit:
  assumes "k < 10"
  shows "is_digit (ch CHR ''0'' + of_nat k)" and "digit_value (ch CHR ''0'' + of_nat k) = k"
proof -
  have "ch CHR ''0'' + of_nat k = (of_nat (48 + k) :: char16)"
    by (simp add: ch_def)
  moreover have "unat (of_nat (48 + k) :: char16) = 48 + k"
    using assms by (simp only: unat_of_nat) simp
  ultimately have u: "unat (ch CHR ''0'' + of_nat k) = 48 + k" by simp
  with assms show "is_digit (ch CHR ''0'' + of_nat k)"
    by (simp add: is_digit_iff)
  then show "digit_value (ch CHR ''0'' + of_nat k) = k"
    by (simp add: digit_value_digit u)
qed

lemma radix_value_snoc: "radix_value R (z @ [c]) = radix_value R z * R + digit_value c"
  by (simp add: radix_value_def)

lemma decimal_value:
  "decimal n \<noteq> [] \<and> list_all is_digit (decimal n) \<and> radix_value 10 (decimal n) = n"
proof (induction n rule: decimal.induct)
  case (1 n)
  show ?case
  proof (cases "n < 10")
    case True
    then show ?thesis
      by (simp add: decimal.simps [of n] decimal_digit radix_value_def)
  next
    case False
    have m: "n mod 10 < 10" by simp
    from False "1.IH" have "list_all is_digit (decimal (n div 10))"
      and "radix_value 10 (decimal (n div 10)) = n div 10" by simp_all
    with False show ?thesis
      by (simp add: decimal.simps [of n] decimal_digit [OF m] radix_value_snoc)
  qed
qed

subsection \<open>The strict parse of integers\<close>

text \<open>
  C7 (as amended): for a non-empty string of ASCII digits the strict parse returns the
  value of type \<open>number\<close> nearest to the decimal value of the string, which is that
  integer itself whenever it is at most \<open>2 ^ 53\<close>; in particular the decimal rendering
  of an integer between 0 and \<open>2 ^ 53\<close> parses to that integer.  Every other string (the
  empty string, a string with a sign, white space or any other character that is not a
  digit) is invalid.
\<close>

theorem parseIntSafe_digits:
  "(s \<noteq> [] \<and> list_all is_digit s \<longrightarrow>
      parseIntSafe s = Some (toNumber (int (radix_value 10 s))))
   \<and> (s \<noteq> [] \<and> list_all is_digit s \<and> radix_value 10 s \<le> 2 ^ 53 \<longrightarrow>
      parseIntSafe s = Some (Finite (int (radix_value 10 s))))
   \<and> (0 \<le> n \<and> n \<le> 2 ^ 53 \<longrightarrow> parseIntSafe (numberToString n) = Some (Finite n))
   \<and> (\<not> (s \<noteq> [] \<and> list_all is_digit s) \<longrightarrow> parseIntSafe s = None)"
proof -
  have 1: "s \<noteq> [] \<and> list_all is_digit s \<longrightarrow>
      parseIntSafe s = Some (toNumber (int (radix_value 10 s)))"
    by (simp add: parseIntSafe_eq)
  have 2: "s \<noteq> [] \<and> list_all is_digit s \<and> radix_value 10 s \<le> 2 ^ 53 \<longrightarrow>
      parseIntSafe s = Some (Finite (int (radix_value 10 s)))"
    by (simp add: parseIntSafe_eq toNumber_exact)
  have 3: "0 \<le> n \<and> n \<le> 2 ^ 53 \<longrightarrow> parseIntSafe (numberToString n) = Some (Finite n)"
  proof
    assume a: "0 \<le> n \<and> n \<le> 2 ^ 53"
    then have b: "nat n \<le> 2 ^ 53" by (simp add: nat_le_iff)
    from a have "numberToString n = decimal (nat n)" by (simp add: numberToString_def)
    with a show "parseIntSafe (numberToString n) = Some (Finite n)"
      using decimal_value [of "nat n"] toNumber_exact [OF b]
      by (simp add: parseIntSafe_eq)
  qed
  have 4: "\<not> (s \<noteq> [] \<and> list_all is_digit s) \<longrightarrow> parseIntSafe s = None"
    by (simp add: parseIntSafe_eq)
  from 1 2 3 4 show ?thesis by blast
qed

lemma big_digits: "list_all is_digit (js ''9007199254740993'')"
  by (simp add: js_def ch_def is_digit_iff)

lemma big_value: "radix_value 10 (js ''9007199254740993'') = 9007199254740993"
  by (simp add: radix_value_def js_def ch_def digit_value_def is_digit_iff)

lemma big_rounded: "toNumber 9007199254740993 = Finite 9007199254740992"
  by (simp add: toNumber_def round53_def bit_length.simps Let_def)

text \<open>
  C7 as stated fails above \<open>2 ^ 53\<close>: the digit string 9007199254740993 has the value
  9007199254740993, and its strict parse is 9007199254740992.
\<close>

theorem parseIntSafe_digits_counterexample:
  "list_all is_digit (js ''9007199254740993'')
   \<and> radix_value 10 (js ''9007199254740993'') = 9007199254740993
   \<and> parseIntSafe (js ''9007199254740993'') = Some (Finite 9007199254740992)"
proof -
  have "js ''9007199254740993'' \<noteq> []" by (simp add: js_def)
  with big_digits have "parseIntSafe (js ''9007199254740993'') = Some (toNumber 9007199254740993)"
    by (simp add: parseIntSafe_eq big_value)
  with big_digits big_value big_rounded show ?thesis by simp
qed

theorem parseIntSafe_digits_witness:
  "parseIntSafe (js ''0042'') = Some (Finite 42)
   \<and> parseIntSafe (numberToString 9007199254740992) = Some (Finite 9007199254740992)
   \<and> parseIntSafe (js ''+42'') = None
   \<and> parseIntSafe [] = None"
proof -
  have d: "js ''0042'' \<noteq> [] \<and> list_all is_digit (js ''0042'')"
    by (simp add: js_def ch_def is_digit_iff)
  have v: "radix_value 10 (js ''0042'') = 42"
    by (simp add: radix_value_def js_def ch_def digit_value_def is_digit_iff)
  have p: "\<not> (js ''+42'' \<noteq> [] \<and> list_all is_digit (js ''+42''))"
    by (simp add: js_def ch_def is_digit_iff)
  have le: "radix_value 10 (js ''0042'') \<le> 2 ^ 53" by (simp add: v)
  from d le parseIntSafe_digits [where s = "js ''0042''"]
  have "parseIntSafe (js ''0042'') = Some (Finite (int (radix_value 10 (js ''0042''))))"
    by blast
  then have 1: "parseIntSafe (js ''0042'') = Some (Finite 42)" by (simp add: v)
  from parseIntSafe_digits [where n = 9007199254740992]
  have 2: "parseIntSafe (numberToString 9007199254740992) = Some (Finite 9007199254740992)" by simp
  from p parseIntSafe_digits [where s = "js ''+42''"]
  have 3: "parseIntSafe (js ''+42'') = None" by blast
  from parseIntSafe_digits [where s = "[]"]
  have 4: "parseIntSafe [] = None" by simp
  from 1 2 3 4 show ?thesis by blast
qed

lemma digits_no_hex_prefix:
  assumes "list_all is_digit ds"
  shows "take 2 ds \<noteq> js ''0x''" and "take 2 ds \<noteq> js ''0X''"
proof -
  have "\<not> is_digit (ch CHR ''x'')" "\<not> is_digit (ch CHR ''X'')"
    using digit_not_x by blast+
  moreover have "set (take 2 ds) \<subseteq> set ds" by (rule set_take_subset)
  ultimately show "take 2 ds \<noteq> js ''0x''" and "take 2 ds \<noteq> js ''0X''"
    using assms by (auto simp add: list_all_iff js_def)
qed


subsection \<open>The lenient parse of the lookup queries\<close>







subsection \<open>Errors of posting a comment\<close>

lemma parseInt_999: "parseIntSafe (js ''999'') \<noteq> None \<and> parseInt (js ''999'') None = Finite 999"
proof -
  have d: "js ''999'' \<noteq> []" "list_all is_digit (js ''999'')"
    by (simp_all add: js_def ch_def is_digit_iff)
  have v: "radix_value 10 (js ''999'') = 999"
    by (simp add: radix_value_def js_def ch_def digit_value_def is_digit_iff)
  have "toNumber (int 999) = Finite (int 999)" by (rule toNumber_exact) simp
  then have t: "toNumber 999 = Finite 999" by simp
  from d digits_no_hex_prefix [OF d(2)]
  have "parseInt (js ''999'' @ []) None = toNumber (int (radix_value 10 (js ''999'')))"
    by (intro parseInt_digits_prefix) simp_all
  with d show ?thesis by (simp add: parseIntSafe_eq v t)
qed

lemma parseIntSafe_12abc: "parseIntSafe (js ''12abc'') = None"
  by (simp add: parseIntSafe_eq) (simp add: js_def ch_def is_digit_iff)

lemma postCommentOnLink_eq:
  "Mutation_postCommentOnLink client \<lparr>pc_linkId = linkId, pc_body = body\<rparr> db =
    (if parseIntSafe linkId = None then
       (Inl (GraphQLError (js ''Cannot post comment on non-existing link with id '' @ quote
               @ linkId @ quote)), db)
     else if body = [] then (Inl (GraphQLError (js ''Cannot post empty comment.'')), db)
     else case comment_create client \<lparr>cd_body = body, cd_linkId = parseInt linkId None\<rparr> db of
            (Inr newComment, db') \<Rightarrow> (Inr newComment, db')
          | (Inl err, db') \<Rightarrow>
              if err = PrismaClientKnownRequestError (js ''P2003'') then
                (Inl (GraphQLError (js ''Cannot post comment on non-existing link with id ''
                        @ quote @ linkId @ quote @ js ''.'')), db')
              else (Inl err, db'))"
  by (auto simp add: Mutation_postCommentOnLink_def
      split: option.splits prod.splits sum.splits error.splits)

text \<open>
  C1: posting a comment with a link identifier that the strict parse rejects fails with
  the message naming the given identifier; otherwise an empty body fails with its own
  message; otherwise the comment is created through the client, an error of the client
  with code P2003 (a foreign key violation) is replaced by the message naming the
  identifier, now with a full stop, and every other error of the client is passed on as it
  is.  This holds for every client and every state of the store.  With the record store,
  a comment on \<open>12abc\<close> fails with the first message and a comment on the missing link
  999 with the second one; neither changes the store.
\<close>

theorem postCommentOnLink_errors:
  "Mutation_postCommentOnLink client \<lparr>pc_linkId = linkId, pc_body = body\<rparr> db =
    (if parseIntSafe linkId = None then
       (Inl (GraphQLError (js ''Cannot post comment on non-existing link with id '' @ quote
               @ linkId @ quote)), db)
     else if body = [] then (Inl (GraphQLError (js ''Cannot post empty comment.'')), db)
     else case comment_create client \<lparr>cd_body = body, cd_linkId = parseInt linkId None\<rparr> db of
            (Inr newComment, db') \<Rightarrow> (Inr newComment, db')
          | (Inl err, db') \<Rightarrow>
              if err = PrismaClientKnownRequestError (js ''P2003'') then
                (Inl (GraphQLError (js ''Cannot post comment on non-existing link with id ''
                        @ quote @ linkId @ quote @ js ''.'')), db')
              else (Inl err, db'))
   \<and> Mutation_postCommentOnLink (prisma (=)) \<lparr>pc_linkId = js ''12abc'', pc_body = js ''hi''\<rparr>
        example_store =
       (Inl (GraphQLError (js ''Cannot post comment on non-existing link with id '12abc'' @ quote)),
        example_store)
   \<and> Mutation_postCommentOnLink (prisma (=)) \<lparr>pc_linkId = js ''999'', pc_body = js ''hi''\<rparr>
        example_store =
       (Inl (GraphQLError (js ''Cannot post comment on non-existing link with id '999'.'')),
        example_store)"
proof -
  note g = postCommentOnLink_eq
  have m: "js ''Cannot post comment on non-existing link with id '12abc''
      = js ''Cannot post comment on non-existing link with id '' @ quote @ js ''12abc''"
    "js ''Cannot post comment on non-existing link with id '999'.''
      = js ''Cannot post comment on non-existing link with id '' @ quote @ js ''999'' @ quote @ js ''.''"
    by (simp_all add: js_def quote_def ch_def)
  have h: "js ''hi'' \<noteq> []" by (simp add: js_def)
  have 1: "Mutation_postCommentOnLink (prisma (=)) \<lparr>pc_linkId = js ''12abc'', pc_body = js ''hi''\<rparr>
        example_store =
       (Inl (GraphQLError (js ''Cannot post comment on non-existing link with id '12abc'' @ quote)),
        example_store)"
    by (simp add: g parseIntSafe_12abc m)
  have r: "references_link example_store (Finite 999) = None"
    by (simp add: references_link_def example_store_def)
  have 2: "Mutation_postCommentOnLink (prisma (=)) \<lparr>pc_linkId = js ''999'', pc_body = js ''hi''\<rparr>
        example_store =
       (Inl (GraphQLError (js ''Cannot post comment on non-existing link with id '999'.'')),
        example_store)"
    using parseInt_999 h
    by (auto simp add: g m prisma_def store_comment_create_def r)
  from g [of client linkId body db] 1 2 show ?thesis by blast
qed

subsection \<open>Facts about the URL patterns\<close>

lemma take_append_eq:
  "take (length a + n) s = a @ b \<longleftrightarrow> take (length a) s = a \<and> take n (drop (length a) s) = b"
proof
  assume e: "take (length a + n) s = a @ b"
  have "take (length a) (take (length a + n) s) = take (length a) s" by simp
  with e have 1: "take (length a) s = a" by simp
  have "drop (length a) (take (length a + n) s) = take n (drop (length a) s)"
    by (simp add: drop_take)
  with e have 2: "take n (drop (length a) s) = b" by simp
  from 1 2 show "take (length a) s = a \<and> take n (drop (length a) s) = b" ..
next
  assume "take (length a) s = a \<and> take n (drop (length a) s) = b"
  then show "take (length a + n) s = a @ b" by (simp add: take_add)
qed

lemma ends_scheme:
  "ends (seq scheme_body) s 0 \<noteq> [] \<longleftrightarrow> take 7 s = js ''http://'' \<or> take 8 s = js ''https://''"
proof -
  have l: "length (js ''http'') = 4" "length (js ''s'') = 1" "length (js ''://'') = 3"
    by (simp_all add: js_def)
  have j: "js ''http'' @ js ''://'' = js ''http://''" "js ''http'' @ js ''s://'' = js ''https://''"
      "js ''s'' @ js ''://'' = js ''s://''"
    by (simp_all add: js_def)
  have a: "take 7 s = js ''http://'' \<longleftrightarrow> take 4 s = js ''http'' \<and> take 3 (drop 4 s) = js ''://''"
    using take_append_eq [of "js ''http''" 3 s "js ''://''"] unfolding l j by simp
  have b: "take 8 s = js ''https://'' \<longleftrightarrow> take 4 s = js ''http'' \<and> take 4 (drop 4 s) = js ''s://''"
    using take_append_eq [of "js ''http''" 4 s "js ''s://''"] unfolding l j by simp
  have c: "take 4 (drop 4 s) = js ''s://'' \<longleftrightarrow>
      take 1 (drop 4 s) = js ''s'' \<and> take 3 (drop 5 s) = js ''://''"
    using take_append_eq [of "js ''s''" 3 "drop 4 s" "js ''://''"] unfolding l j by simp
  show ?thesis
    unfolding a b c
    by (auto simp add: scheme_body_def seq_Cons seq_Nil l)
qed

lemma regex_test_scheme:
  "regex_test scheme_re s \<longleftrightarrow> take 7 s = js ''http://'' \<or> take 8 s = js ''https://''"
  by (simp only: scheme_re_def seq_Cons regex_test_Bol ends_scheme)

lemma ends_scheme_https: "ends (seq scheme_body) (js ''https://'' @ t) 0 = [8]"
  by (simp add: scheme_body_def seq_Cons seq_Nil js_def ch_def)

lemma word_char_at_shift:
  "0 \<le> e \<Longrightarrow> word_char_at (p @ t) (int (length p) + e) = word_char_at t e"
  by (simp add: word_char_at_def nth_append nat_add_distrib)

lemma word_char_at_before:
  "p = [] \<or> \<not> is_word_char (last p) \<Longrightarrow> \<not> word_char_at (p @ t) (int (length p) - 1)"
proof (cases p rule: rev_cases)
  case Nil
  then show ?thesis by (simp add: word_char_at_def)
next
  case (snoc p' c)
  assume "p = [] \<or> \<not> is_word_char (last p)"
  with snoc have "\<not> is_word_char c" by simp
  with snoc show ?thesis
    by (simp add: word_char_at_def nth_append)
qed

lemma ends_shift:
  assumes "\<not> uses_bol r" and "p = [] \<or> \<not> is_word_char (last p)"
  shows "ends r (p @ t) (length p + i) = map ((+) (length p)) (ends r t i)"
  using assms(1)
proof (induction r arbitrary: i)
  case Bol
  then show ?case by simp
next
  case Eol
  show ?case by simp
next
  case WordB
  have a: "word_char_at (p @ t) (int (length p + i)) = word_char_at t (int i)"
    using word_char_at_shift [of "int i" p t] by simp
  have b: "word_char_at (p @ t) (int (length p + i) - 1) = word_char_at t (int i - 1)"
  proof (cases i)
    case 0
    with word_char_at_before [OF assms(2), of t] show ?thesis
      by (simp add: word_char_at_def)
  next
    case (Suc k)
    with word_char_at_shift [of "int k" p t] show ?thesis by simp
  qed
  show ?case by (simp only: ends.simps a b) simp
next
  case (Lit l)
  show ?case by simp
next
  case (Rep c lo hi)
  show ?case by (simp add: Let_def comp_def add.assoc)
next
  case (Opt r)
  then show ?case by simp
next
  case (Cat a b)
  then have ia: "ends a (p @ t) (length p + i) = map ((+) (length p)) (ends a t i)"
    and ib: "\<And>j. ends b (p @ t) (length p + j) = map ((+) (length p)) (ends b t j)"
    by simp_all
  have "ends (Cat a b) (p @ t) (length p + i)
      = concat (map (\<lambda>j. ends b (p @ t) (length p + j)) (ends a t i))"
    by (simp add: ia comp_def)
  also have "\<dots> = concat (map (\<lambda>j. map ((+) (length p)) (ends b t j)) (ends a t i))"
    by (simp only: ib)
  also have "\<dots> = map ((+) (length p)) (concat (map (ends b t) (ends a t i)))"
    by (simp add: map_concat comp_def)
  finally show ?case by simp
qed

lemma uses_bol_seq: "uses_bol (seq rs) \<longleftrightarrow> (\<exists>r\<in>set rs. uses_bol r)"
  by (induction rs) (simp_all add: seq_Nil seq_Cons)

lemma domain_body_no_bol: "\<not> uses_bol (seq domain_body)"
  by (simp add: uses_bol_seq domain_body_def)

lemma slash_not_word_char: "\<not> is_word_char (last (js ''https://''))"
  by (simp add: js_def is_word_char_def is_digit_def in_range_def ch_def)

lemma domain_to_url:
  assumes "regex_test domain_re t"
  shows "regex_test url_re (js ''https://'' @ t)"
proof -
  from assms have d: "ends (seq domain_body) t 0 \<noteq> []"
    unfolding domain_re_def seq_Cons regex_test_Bol .
  have l: "length (js ''https://'') = 8" by (simp add: js_def)
  have "ends (seq domain_body) (js ''https://'' @ t) 8
      = map ((+) 8) (ends (seq domain_body) t 0)"
    using ends_shift [of "seq domain_body" "js ''https://''" t 0]
      domain_body_no_bol slash_not_word_char
    by (simp add: l)
  with d have "ends (seq domain_body) (js ''https://'' @ t) 8 \<noteq> []"
    by simp
  then have "ends (seq (scheme_body @ domain_body)) (js ''https://'' @ t) 0 \<noteq> []"
    by (simp add: ends_seq_append ends_scheme_https)
  then show ?thesis
    unfolding url_re_def seq_Cons regex_test_Bol .
qed

subsection \<open>Facts about trimming\<close>

lemma dropWhile_id: "xs = [] \<or> \<not> P (hd xs) \<Longrightarrow> dropWhile P xs = xs"
  by (cases xs) auto

lemma last_dropWhile: "dropWhile P xs \<noteq> [] \<Longrightarrow> last (dropWhile P xs) = last xs"
proof -
  assume a: "dropWhile P xs \<noteq> []"
  have "last (takeWhile P xs @ dropWhile P xs) = last (dropWhile P xs)"
    using a by (rule last_appendR)
  then show ?thesis by simp
qed

lemma trim_id:
  assumes "xs = [] \<or> \<not> is_whitespace (hd xs) \<and> \<not> is_whitespace (last xs)"
  shows "trim xs = xs"
proof (cases "xs = []")
  case True
  then show ?thesis by (simp add: trim_def)
next
  case False
  with assms have h: "\<not> is_whitespace (hd xs)" and l: "\<not> is_whitespace (last xs)" by simp_all
  from False h have 1: "dropWhile is_whitespace xs = xs" by (simp add: dropWhile_id)
  from False l have "\<not> is_whitespace (hd (rev xs))" by (simp add: hd_rev)
  then have 2: "dropWhile is_whitespace (rev xs) = rev xs" by (simp add: dropWhile_id)
  show ?thesis by (simp add: trim_def 1 2)
qed

lemma trim_ends:
  "trim s = [] \<or> \<not> is_whitespace (hd (trim s)) \<and> \<not> is_whitespace (last (trim s))"
proof (cases "trim s = []")
  case True
  then show ?thesis by simp
next
  case False
  define d where "d = dropWhile is_whitespace s"
  define e where "e = dropWhile is_whitespace (rev d)"
  have t: "trim s = rev e" by (simp add: trim_def d_def e_def)
  with False have e: "e \<noteq> []" by simp
  then have "\<not> is_whitespace (hd e)" unfolding e_def by (rule hd_dropWhile)
  with e have 1: "\<not> is_whitespace (last (trim s))" by (simp add: t last_rev)
  from e have "last e = last (rev d)" unfolding e_def by (rule last_dropWhile)
  moreover from e have d: "d \<noteq> []" by (auto simp add: e_def)
  ultimately have "hd (trim s) = hd d" using e by (simp add: t hd_rev last_rev)
  moreover from d have "\<not> is_whitespace (hd d)" unfolding d_def by (rule hd_dropWhile)
  ultimately have 2: "\<not> is_whitespace (hd (trim s))" by simp
  from 1 2 show ?thesis by simp
qed

lemma trim_trim: "trim (trim s) = trim s"
  using trim_ends [of s] by (rule trim_id)

lemma domain_nonempty: "regex_test domain_re t \<Longrightarrow> t \<noteq> []"
proof
  assume "regex_test domain_re t" and "t = []"
  then have "regex_test domain_re []" by simp
  then show False
    by (simp add: domain_re_def domain_body_def seq_Cons seq_Nil regex_test_def js_def)
qed

lemma h_not_whitespace: "\<not> is_whitespace (hd (js ''https://''))"
  by (simp add: js_def ch_def is_whitespace_def whitespace_units_def)

lemma validateAndNormalizeUrl_eq:
  "validateAndNormalizeUrl url =
    (let t = trim url
     in if take 7 t = js ''http://'' \<or> take 8 t = js ''https://'' then
          (if regex_test url_re t then Inr t
           else Inl (GraphQLError (js ''Invalid URL format.'')))
        else
          (if regex_test domain_re t then Inr (js ''https://'' @ t)
           else Inl (GraphQLError (js ''Invalid domain format.''))))"
  by (simp add: validateAndNormalizeUrl_def regex_test_scheme Let_def)



lemma example_com_spaces:
  "validateAndNormalizeUrl (js '' example.com '') = Inr (js ''https://example.com'')"
  by code_simp

subsection \<open>Normalization of URLs\<close>


text \<open>
  C10: the normalization is idempotent on its successes: a URL that the normalization
  returns is normalized to itself.
\<close>

theorem normalizeUrl_idempotent:
  "validateAndNormalizeUrl url = Inr u \<Longrightarrow> validateAndNormalizeUrl u = Inr u"
proof -
  assume a: "validateAndNormalizeUrl url = Inr u"
  define t where "t = trim url"
  show ?thesis
  proof (cases "take 7 t = js ''http://'' \<or> take 8 t = js ''https://''")
    case True
    with a have m: "regex_test url_re t" and u: "u = t"
      by (auto simp add: validateAndNormalizeUrl_eq t_def Let_def split: if_splits)
    have "trim u = t" by (simp add: u t_def trim_trim)
    with True m u show ?thesis
      by (simp add: validateAndNormalizeUrl_eq Let_def)
  next
    case False
    with a have m: "regex_test domain_re t" and u: "u = js ''https://'' @ t"
      by (auto simp add: validateAndNormalizeUrl_eq t_def Let_def split: if_splits)
    from m have n: "t \<noteq> []" by (rule domain_nonempty)
    with trim_ends [of url] have "\<not> is_whitespace (last t)" by (simp add: t_def)
    with n have l: "\<not> is_whitespace (last u)" by (simp add: u)
    have j: "js ''https://'' \<noteq> []" by (simp add: js_def)
    then have "hd u = hd (js ''https://'')" by (simp add: u)
    with h_not_whitespace have h: "\<not> is_whitespace (hd u)" by simp
    from h l have tr: "trim u = u" by (intro trim_id) simp
    have s: "take 8 u = js ''https://''" by (simp add: u js_def)
    from m have "regex_test url_re u" unfolding u by (rule domain_to_url)
    with s show ?thesis
      by (simp add: validateAndNormalizeUrl_eq [of u] Let_def tr)
  qed
qed

theorem normalizeUrl_idempotent_witness:
  "validateAndNormalizeUrl (js '' example.com '') = Inr (js ''https://example.com'')
   \<and> validateAndNormalizeUrl (js ''https://example.com'') = Inr (js ''https://example.com'')"
  using example_com_spaces normalizeUrl_idempotent [OF example_com_spaces] by simp

end
